theory Spec2Isabelle
  imports Complex_Main "HOL-Library.Sublist"
begin

unbundle bit_operations_syntax

section \<open>Data model of the chat page (frontend/src/app/page.tsx)\<close>

text \<open>
  JavaScript strings are modelled as \<^typ>\<open>string\<close>: sequences of code units below 256.
  A TypeScript \<open>number\<close> that carries a timestamp or a count read from JSON is a
  finite double, hence a rational; a difference of two \<open>Date.now()\<close> readings is an
  integer number of milliseconds.
\<close>

record Thread =
  id_t :: string
  title :: string
  created_at :: rat
  updated_at :: rat
  message_count :: rat

datatype role = User | Assistant

record Message =
  role :: role
  content :: string
  responseTime :: "int option"

text \<open>
  What the page does to the outside world: the HTTP requests it issues (oldest first)
  and the lines it writes with \<open>console.error\<close> (label and error detail).
\<close>

datatype request =
    GET_threads
  | POST_threads "string option"
  | DELETE_thread string
  | POST_chat string string

text \<open>
  The outcome of \<open>await fetch(...)\<close>: the promise rejects with an error, or it
  resolves to a response with its \<open>ok\<close> flag and its body. For a JSON endpoint the
  body is what \<open>response.json()\<close> gives: a rejection (\<open>Inl\<close>) or the parsed data.
\<close>

datatype 'b fetched = FetchRejected string | Responded bool 'b

text \<open>
  A response body read through \<open>getReader()\<close>: the decoded text of each chunk in arrival
  order (what \<open>decoder.decode(value, {stream: true})\<close> returns for it), and how the
  stream ends: \<open>done\<close>, or a \<open>read()\<close> that rejects.
\<close>

datatype stream_end = Done | ReadRejected string

type_synonym reader = "string list \<times> stream_end"

text \<open>
  The React state of \<open>Home\<close> that the modelled handlers read or write, together with
  the request log and the console. \<open>sidebarOpen\<close> and \<open>isDarkMode\<close> are touched by
  none of them.
\<close>

record State =
  messages :: "Message list"
  input :: string
  isLoading :: bool
  chatStarted :: bool
  threadId :: string
  threads :: "Thread list"
  isLoadingThreads :: bool
  requests :: "request list"
  console :: "(string \<times> string) list"

definition fetch :: "request \<Rightarrow> State \<Rightarrow> State" where
  "fetch r st = st\<lparr>requests := requests st @ [r]\<rparr>"

definition console_error :: "string \<Rightarrow> string \<Rightarrow> State \<Rightarrow> State" where
  "console_error label detail st = st\<lparr>console := console st @ [(label, detail)]\<rparr>"

section \<open>String helpers of the platform\<close>

text \<open>
  \<open>String.prototype.trim\<close> removes WhiteSpace and LineTerminator code units from both
  ends; below 256 these are TAB, LF, VT, FF, CR, SPACE and NBSP.
\<close>

definition isWhiteSpace :: "char \<Rightarrow> bool" where
  "isWhiteSpace c = ((of_char c :: nat) \<in> {9, 10, 11, 12, 13, 32, 160})"

definition trim :: "string \<Rightarrow> string" where
  "trim s = rev (dropWhile isWhiteSpace (rev (dropWhile isWhiteSpace s)))"

text \<open>\<open>Array.prototype.map\<close> with the callback's index argument.\<close>

definition map_index :: "('a \<Rightarrow> nat \<Rightarrow> 'b) \<Rightarrow> 'a list \<Rightarrow> 'b list" where
  "map_index f xs = map (\<lambda>(i, x). f x i) (zip [0..<length xs] xs)"

section \<open>generateUUID (page.tsx, lines 36 to 42)\<close>

text \<open>
  \<open>x | 0\<close> applies ToInt32 to a number: truncation towards zero, then reduction modulo
  \<open>2^32\<close> into the signed range. \<open>Math.random() * 16\<close> is exact in double arithmetic
  (a scaling by a power of two), so the random value is taken as a rational.
\<close>

definition ToInt32 :: "rat \<Rightarrow> int" where
  "ToInt32 x =
     (let t = (if x < 0 then \<lceil>x\<rceil> else \<lfloor>x\<rfloor>);
          m = t mod 2 ^ 32
      in if m \<ge> 2 ^ 31 then m - 2 ^ 32 else m)"

definition hexDigit :: "nat \<Rightarrow> char" where
  "hexDigit d = ''0123456789abcdef'' ! d"

fun toString16_nat :: "nat \<Rightarrow> string" where
  "toString16_nat n =
     (if n < 16 then [hexDigit n] else toString16_nat (n div 16) @ [hexDigit (n mod 16)])"

declare toString16_nat.simps [simp del]

text \<open>\<open>Number.prototype.toString(16)\<close> on an integer.\<close>

definition toString16 :: "int \<Rightarrow> string" where
  "toString16 v =
     (if v < 0 then CHR ''-'' # toString16_nat (nat (- v)) else toString16_nat (nat v))"

text \<open>The callback of \<open>replace\<close>: \<open>c\<close> is the matched character, \<open>u\<close> the value
  that \<open>Math.random()\<close> returns in this call.\<close>

definition replacer :: "char \<Rightarrow> rat \<Rightarrow> string" where
  "replacer c u =
     (let r = ToInt32 (u * 16) OR 0;
          v = (if c = CHR ''x'' then r else (r AND 3) OR 8)
      in toString16 v)"

text \<open>
  \<open>s.replace(/[xy]/g, f)\<close>: every \<open>x\<close> and \<open>y\<close>, from left to right, is replaced by
  what the callback returns; each call draws the next value of the random source
  \<open>rnd\<close>, of which \<open>k\<close> have been drawn so far.
\<close>

fun replace_xy :: "string \<Rightarrow> (nat \<Rightarrow> rat) \<Rightarrow> nat \<Rightarrow> string" where
  "replace_xy [] rnd k = []"
| "replace_xy (c # cs) rnd k =
     (if c = CHR ''x'' \<or> c = CHR ''y''
      then replacer c (rnd k) @ replace_xy cs rnd (Suc k)
      else c # replace_xy cs rnd k)"

definition generateUUID :: "(nat \<Rightarrow> rat) \<Rightarrow> string" where
  "generateUUID rnd = replace_xy ''xxxxxxxx-xxxx-4xxx-yxxx-xxxxxxxxxxxx'' rnd 0"

section \<open>Thread handlers\<close>

text \<open>\<open>fetchThreads\<close> (lines 85 to 98), given the outcome of \<open>GET /threads\<close>.\<close>

definition fetchThreads :: "(string + Thread list) fetched \<Rightarrow> State \<Rightarrow> State" where
  "fetchThreads resp st =
     (let st1 = fetch GET_threads (st\<lparr>isLoadingThreads := True\<rparr>);
          st2 = (case resp of
                   FetchRejected e \<Rightarrow> console_error ''Failed to fetch threads:'' e st1
                 | Responded ok body \<Rightarrow>
                     if ok then
                       (case body of
                          Inl e \<Rightarrow> console_error ''Failed to fetch threads:'' e st1
                        | Inr data \<Rightarrow> st1\<lparr>threads := data\<rparr>)
                     else st1)
      in st2\<lparr>isLoadingThreads := False\<rparr>)"

text \<open>
  \<open>createThread\<close> (lines 100 to 116), given the outcome of \<open>POST /threads\<close> and the
  random source that \<open>generateUUID\<close> draws from. It returns the thread id.
\<close>

definition createThread ::
  "string option \<Rightarrow> (string + Thread) fetched \<Rightarrow> (nat \<Rightarrow> rat) \<Rightarrow> State \<Rightarrow> string \<times> State"
where
  "createThread title_arg resp rnd st =
     (let st1 = fetch (POST_threads title_arg) st in
      case resp of
        FetchRejected e \<Rightarrow>
          (generateUUID rnd, console_error ''Failed to create thread:'' e st1)
      | Responded ok body \<Rightarrow>
          if ok then
            (case body of
               Inl e \<Rightarrow> (generateUUID rnd, console_error ''Failed to create thread:'' e st1)
             | Inr thread \<Rightarrow> (id_t thread, st1\<lparr>threads := thread # threads st1\<rparr>))
          else (generateUUID rnd, st1))"

text \<open>
  The \<open>for\<close> loop of \<open>handleNewChat\<close> (lines 229 to 237). \<open>out k\<close> is the outcome of the
  \<open>k\<close>-th \<open>DELETE\<close>: \<open>None\<close> when the fetch resolves (the response is ignored),
  \<open>Some e\<close> when it rejects with \<open>e\<close>.
\<close>

fun delete_loop :: "(nat \<Rightarrow> string option) \<Rightarrow> nat \<Rightarrow> Thread list \<Rightarrow> State \<Rightarrow> State" where
  "delete_loop out k [] st = st"
| "delete_loop out k (t # ts) st =
     delete_loop out (Suc k) ts
       (let st1 = fetch (DELETE_thread (id_t t)) st in
        case out k of
          None \<Rightarrow> st1
        | Some e \<Rightarrow> console_error (''Failed to delete empty thread '' @ id_t t @ '':'') e st1)"

record NewChatEnv =
  deleteOutcome :: "nat \<Rightarrow> string option"
  createResponse :: "(string + Thread) fetched"
  random :: "nat \<Rightarrow> rat"

text \<open>
  \<open>handleNewChat\<close> (lines 225 to 251). The handler reads \<open>threads\<close> from the state
  it was rendered with and the updater given to \<open>setThreads\<close> is applied to the
  state of that moment; in a run that no other handler interleaves with, both are the
  thread list of \<open>st\<close>. The removal from the local list happens whether or not the
  \<open>DELETE\<close> requests succeeded.
\<close>

definition handleNewChat :: "NewChatEnv \<Rightarrow> State \<Rightarrow> State" where
  "handleNewChat env st =
     (let emptyThreads = filter (\<lambda>t. message_count t = 0) (threads st);
          st1 = delete_loop (deleteOutcome env) 0 emptyThreads st;
          st2 = (if length emptyThreads > 0
                 then (let emptyThreadIds = set (map id_t emptyThreads)
                       in st1\<lparr>threads := filter (\<lambda>t. id_t t \<notin> emptyThreadIds) (threads st1)\<rparr>)
                 else st1);
          (newThreadId, st3) = createThread None (createResponse env) (random env) st2
      in st3\<lparr>messages := [], input := [], isLoading := False, chatStarted := False,
             threadId := newThreadId\<rparr>)"

section \<open>handleSubmit (lines 152 to 223)\<close>

text \<open>The two updaters passed to \<open>setMessages\<close> that rewrite the last message.\<close>

definition set_last_content :: "string \<Rightarrow> Message list \<Rightarrow> Message list" where
  "set_last_content acc prev =
     map_index (\<lambda>msg i.
       if int i = int (length prev) - 1 \<and> role msg = Assistant
       then msg\<lparr>content := acc\<rparr> else msg) prev"

definition set_last_responseTime :: "int \<Rightarrow> Message list \<Rightarrow> Message list" where
  "set_last_responseTime t prev =
     map_index (\<lambda>msg i.
       if int i = int (length prev) - 1 \<and> role msg = Assistant
       then msg\<lparr>responseTime := Some t\<rparr> else msg) prev"

text \<open>
  One iteration of the \<open>while (true)\<close> loop (lines 188 to 201) for a chunk whose decoded
  text is \<open>frag\<close>. The locals are \<open>accumulated\<close> and \<open>assistantMessageAdded\<close>.
\<close>

definition loop_body :: "string \<Rightarrow> string \<times> bool \<times> State \<Rightarrow> string \<times> bool \<times> State" where
  "loop_body frag = (\<lambda>(accumulated, assistantMessageAdded, st).
     (let accumulated = accumulated @ frag in
      if \<not> assistantMessageAdded \<and> trim accumulated \<noteq> []
      then (accumulated, True,
            st\<lparr>messages := messages st @
                 [\<lparr>role = Assistant, content = accumulated, responseTime = None\<rparr>]\<rparr>)
      else if assistantMessageAdded
      then (accumulated, assistantMessageAdded,
            st\<lparr>messages := set_last_content accumulated (messages st)\<rparr>)
      else (accumulated, assistantMessageAdded, st)))"

text \<open>
  The loop over the chunks that the reader delivers before it ends. The body is a list,
  so the loop runs once per chunk and then stops.
\<close>

fun read_loop :: "string list \<Rightarrow> string \<times> bool \<times> State \<Rightarrow> string \<times> bool \<times> State" where
  "read_loop [] s = s"
| "read_loop (frag # frags) s = read_loop frags (loop_body frag s)"

record SubmitEnv =
  startTime :: int
  responseAt :: int
  errorAt :: int
  chatResponse :: "reader option fetched"
  threadsResponse :: "(string + Thread list) fetched"

text \<open>
  Lines 156 to 171: the user's message, the flags, and the request. The request body
  carries the \<open>input\<close> and the \<open>threadId\<close> that the handler was rendered with, not
  the input field emptied by \<open>setInput\<close>.
\<close>

definition submit_start :: "State \<Rightarrow> State" where
  "submit_start st =
     (let userMessage = \<lparr>role = User, content = input st, responseTime = None\<rparr>;
          st1 = st\<lparr>messages := messages st @ [userMessage]\<rparr>;
          st2 = st1\<lparr>chatStarted := True, input := [], isLoading := True\<rparr>
      in fetch (POST_chat (input st) (threadId st)) st2)"

text \<open>The \<open>catch\<close> block (lines 212 to 219) for an error with detail \<open>e\<close>.\<close>

definition submit_catch :: "SubmitEnv \<Rightarrow> string \<Rightarrow> State \<Rightarrow> State" where
  "submit_catch env e st =
     (let st1 = console_error ''Error:'' e st;
          responseTime = errorAt env - startTime env
      in st1\<lparr>messages := messages st1 @
           [\<lparr>role = Assistant,
             content = ''Sorry, there was an error processing your message.'',
             responseTime = Some responseTime\<rparr>]\<rparr>)"

text \<open>The \<open>try\<close> block after the fetch has been issued (lines 173 to 211).\<close>

definition submit_try :: "SubmitEnv \<Rightarrow> State \<Rightarrow> State" where
  "submit_try env st =
     (case chatResponse env of
        FetchRejected e \<Rightarrow> submit_catch env e st
      | Responded ok body \<Rightarrow>
          (let finalResponseTime = responseAt env - startTime env in
           if \<not> ok then submit_catch env ''Failed to get response'' st
           else
             (case body of
                None \<Rightarrow> submit_catch env ''No response body'' st
              | Some (frags, ending) \<Rightarrow>
                  (let (accumulated, assistantMessageAdded, st1) =
                         read_loop frags ([], False, st)
                   in case ending of
                        ReadRejected e \<Rightarrow> submit_catch env e st1
                      | Done \<Rightarrow>
                          fetchThreads (threadsResponse env)
                            (st1\<lparr>messages :=
                               set_last_responseTime finalResponseTime (messages st1)\<rparr>)))))"

text \<open>
  The whole handler: the guard of line 154, then the \<open>try\<close> block, then the
  \<open>finally\<close> block. \<open>fetchThreads\<close> is started without \<open>await\<close>; it writes other
  fields than \<open>setIsLoading\<close>, so the order in which the two complete does not show in
  the resulting state.
\<close>

definition handleSubmit :: "SubmitEnv \<Rightarrow> State \<Rightarrow> State" where
  "handleSubmit env st =
     (if trim (input st) = [] \<or> isLoading st then st
      else (submit_try env (submit_start st))\<lparr>isLoading := False\<rparr>)"

text \<open>
  The message list that a run of \<open>handleSubmit\<close> from \<open>st\<close> has set once the chunks
  \<open>pre\<close> have been read and the next \<open>read()\<close> is pending: the loop of \<open>submit_try\<close>
  started as there, stopped after \<open>pre\<close>.
\<close>

definition messages_after :: "string list \<Rightarrow> State \<Rightarrow> Message list" where
  "messages_after pre st = messages (snd (snd (read_loop pre ([], False, submit_start st))))"

section \<open>Rendering of the message list (lines 494 to 530)\<close>

record Bubble =
  key :: nat
  alignRight :: bool
  header :: bool
  markdown :: string
  footer :: "int option"

definition render_messages :: "Message list \<Rightarrow> Bubble list" where
  "render_messages ms =
     map_index (\<lambda>message index.
       \<lparr>key = index,
        alignRight = (role message = User),
        header = (role message = Assistant),
        markdown = content message,
        footer = (case responseTime message of
                    None \<Rightarrow> None
                  | Some t \<Rightarrow> if t \<noteq> 0 \<and> role message = Assistant then Some t else None)\<rparr>) ms"

section \<open>Query Cache and Vector Index version (backend)\<close>

text \<open>
  The backend is not among the source files: the Vector Index, the Query Cache and the
  Retrieval Orchestrator's cache lookup are written here from sections 3, 4.2, 4.3 and
  4.5 of the specification.
\<close>

text \<open>Modelled from the spec: the \<open>IndexEntry\<close> of section 3 (the backend's index
  entries are missing from the sources).\<close>

record IndexEntry =
  chunk_fingerprint :: string
  vector :: "rat list"
  source_path :: string
  sequence_index :: nat
  metadata :: string

text \<open>Modelled from the spec: the Vector Index of section 4.2 (missing from the
  sources), its entries and its version counter.\<close>

record VectorIndex =
  entries :: "IndexEntry list"
  version :: nat

text \<open>Modelled from the spec: \<open>upsert\<close> of the Vector Index (missing from the sources);
  a mutating call, so it increments the version (section 4.2).\<close>

definition upsert :: "IndexEntry list \<Rightarrow> VectorIndex \<Rightarrow> VectorIndex" where
  "upsert es idx =
     \<lparr>entries =
        filter (\<lambda>e. chunk_fingerprint e \<notin> set (map chunk_fingerprint es)) (entries idx) @ es,
      version = version idx + 1\<rparr>"

text \<open>Modelled from the spec: \<open>delete(source_path)\<close> of the Vector Index (missing from
  the sources); it increments the version (section 4.2).\<close>

definition delete_source :: "string \<Rightarrow> VectorIndex \<Rightarrow> VectorIndex" where
  "delete_source p idx =
     \<lparr>entries = filter (\<lambda>e. source_path e \<noteq> p) (entries idx),
      version = version idx + 1\<rparr>"

text \<open>Modelled from the spec: \<open>flush()\<close> of the Vector Index (missing from the
  sources); it increments the version (section 4.2).\<close>

definition flush :: "VectorIndex \<Rightarrow> VectorIndex" where
  "flush idx = \<lparr>entries = [], version = version idx + 1\<rparr>"

text \<open>Modelled from the spec: the corpus mutations (ingestion upserts, deletion, flush)
  that the backend, missing from the sources, applies to the index.\<close>

datatype mutation = Upsert "IndexEntry list" | Delete string | Flush

text \<open>Modelled from the spec: one mutating call of the Vector Index (section 4.2).\<close>

fun apply_mutation :: "mutation \<Rightarrow> VectorIndex \<Rightarrow> VectorIndex" where
  "apply_mutation (Upsert es) idx = upsert es idx"
| "apply_mutation (Delete p) idx = delete_source p idx"
| "apply_mutation Flush idx = flush idx"

text \<open>Modelled from the spec: a sequence of mutating calls, applied in order.\<close>

fun apply_mutations :: "mutation list \<Rightarrow> VectorIndex \<Rightarrow> VectorIndex" where
  "apply_mutations [] idx = idx"
| "apply_mutations (m # ms) idx = apply_mutations ms (apply_mutation m idx)"

text \<open>Modelled from the spec: the \<open>QueryCacheEntry\<close> of section 3 (the backend's cache
  entries are missing from the sources).\<close>

record QueryCacheEntry =
  normalized_query_hash :: string
  corpus_version :: nat
  answer :: string
  retrieved_chunk_ids :: "string list"
  entry_created_at :: nat
  ttl :: nat

text \<open>Modelled from the spec: case-folding of one character, for the normalization of
  section 4.3 (missing from the sources).\<close>

definition fold_case :: "char \<Rightarrow> char" where
  "fold_case c =
     (if 65 \<le> (of_char c :: nat) \<and> (of_char c :: nat) \<le> 90
      then char_of ((of_char c :: nat) + 32) else c)"

text \<open>Modelled from the spec: whitespace collapse, for the normalization of section 4.3
  (missing from the sources): every run of whitespace becomes one space.\<close>

fun collapse_ws :: "string \<Rightarrow> string" where
  "collapse_ws [] = []"
| "collapse_ws [c] = [if isWhiteSpace c then CHR '' '' else c]"
| "collapse_ws (c # d # cs) =
     (if isWhiteSpace c
      then (if isWhiteSpace d then collapse_ws (d # cs) else CHR '' '' # collapse_ws (d # cs))
      else c # collapse_ws (d # cs))"

text \<open>Modelled from the spec: normalization of a query is trimming, case-folding and
  whitespace collapse (section 4.3; missing from the sources). The hash of the
  normalized query is represented by the normalized text itself.\<close>

definition normalize_query :: "string \<Rightarrow> string" where
  "normalize_query q = collapse_ws (map fold_case (trim q))"

type_synonym QueryCache = "string \<rightharpoonup> QueryCacheEntry"

text \<open>Modelled from the spec: \<open>put\<close> of the Query Cache (section 4.3; missing from the
  sources), at time \<open>now\<close>.\<close>

definition cache_put ::
  "string \<Rightarrow> nat \<Rightarrow> string \<Rightarrow> string list \<Rightarrow> nat \<Rightarrow> nat \<Rightarrow> QueryCache \<Rightarrow> QueryCache"
where
  "cache_put q cv a ids lifetime now c =
     c(normalize_query q \<mapsto>
        \<lparr>normalized_query_hash = normalize_query q, corpus_version = cv, answer = a,
         retrieved_chunk_ids = ids, entry_created_at = now, ttl = lifetime\<rparr>)"

text \<open>Modelled from the spec: \<open>get\<close> of the Query Cache (section 4.3; missing from the
  sources). An entry whose time to live has elapsed, or whose recorded corpus version
  is not the one asked for, is a miss.\<close>

definition cache_get :: "string \<Rightarrow> nat \<Rightarrow> nat \<Rightarrow> QueryCache \<Rightarrow> string option" where
  "cache_get q cv now c =
     (case c (normalize_query q) of
        None \<Rightarrow> None
      | Some e \<Rightarrow>
          if corpus_version e = cv \<and> now < entry_created_at e + ttl e
          then Some (answer e) else None)"

text \<open>Modelled from the spec: the \<open>CACHE_LOOKUP\<close> step of the Retrieval Orchestrator
  (section 4.5; missing from the sources) reads the index version and asks the cache at
  that version.\<close>

definition cache_lookup :: "VectorIndex \<Rightarrow> QueryCache \<Rightarrow> string \<Rightarrow> nat \<Rightarrow> string option" where
  "cache_lookup idx c q now = cache_get q (version idx) now c"

section \<open>Example inputs\<close>

definition thread_a :: Thread where
  "thread_a = \<lparr>id_t = ''a'', title = ''New Chat'', created_at = 30, updated_at = 30,
     message_count = 0\<rparr>"

definition thread_b :: Thread where
  "thread_b = \<lparr>id_t = ''b'', title = ''Greece'', created_at = 10, updated_at = 20,
     message_count = 2\<rparr>"

definition thread_c :: Thread where
  "thread_c = \<lparr>id_t = ''c'', title = ''New Chat'', created_at = 5, updated_at = 5,
     message_count = 0\<rparr>"

definition thread_new :: Thread where
  "thread_new = \<lparr>id_t = ''n'', title = ''New Chat'', created_at = 40, updated_at = 40,
     message_count = 0\<rparr>"

definition state0 :: State where
  "state0 = \<lparr>messages = [], input = ''hi'', isLoading = False, chatStarted = False,
     threadId = ''t'', threads = [thread_a, thread_b, thread_c], isLoadingThreads = False,
     requests = [], console = []\<rparr>"

definition submit_env :: "reader option fetched \<Rightarrow> SubmitEnv" where
  "submit_env resp = \<lparr>startTime = 100, responseAt = 130, errorAt = 150,
     chatResponse = resp, threadsResponse = Responded True (Inr [thread_b])\<rparr>"

definition state_dup :: State where
  "state_dup = state0\<lparr>threads := [thread_a, thread_a\<lparr>message_count := 2\<rparr>]\<rparr>"

definition newchat_env :: "(string + Thread) fetched \<Rightarrow> NewChatEnv" where
  "newchat_env resp = \<lparr>deleteOutcome = (\<lambda>k. if k = 0 then None else Some ''offline''),
     createResponse = resp, random = (\<lambda>k. 1 / 2)\<rparr>"

definition index0 :: VectorIndex where
  "index0 = \<lparr>entries = [], version = 7\<rparr>"

section \<open>Auxiliary facts\<close>

lemma trim_blank: "(trim s = []) = (\<forall>c\<in>set s. isWhiteSpace c)"
proof
  assume "trim s = []"
  then have a: "\<forall>c\<in>set (dropWhile isWhiteSpace s). isWhiteSpace c"
    by (simp add: trim_def)
  have "dropWhile isWhiteSpace s = []"
  proof (cases "dropWhile isWhiteSpace s")
    case Nil then show ?thesis .
  next
    case (Cons x xs)
    then have "\<not> isWhiteSpace x" using hd_dropWhile[of isWhiteSpace s] by simp
    with a Cons show ?thesis by simp
  qed
  then show "\<forall>c\<in>set s. isWhiteSpace c" by simp
next
  assume "\<forall>c\<in>set s. isWhiteSpace c"
  then show "trim s = []" by (auto simp: trim_def dest: set_dropWhileD)
qed

lemma map_index_nth: "i < length xs \<Longrightarrow> map_index f xs ! i = f (xs ! i) i"
  by (simp add: map_index_def)

lemma length_map_index: "length (map_index f xs) = length xs"
  by (simp add: map_index_def)

lemma map_index_last:
  assumes "ms \<noteq> []"
  shows "map_index (\<lambda>m i. if int i = int (length ms) - 1 \<and> P m then f m else m) ms
     = butlast ms @ [if P (last ms) then f (last ms) else last ms]"
proof (rule nth_equalityI)
  show "length (map_index (\<lambda>m i. if int i = int (length ms) - 1 \<and> P m then f m else m) ms)
      = length (butlast ms @ [if P (last ms) then f (last ms) else last ms])"
    using assms by (simp add: length_map_index)
next
  fix i
  assume "i < length (map_index (\<lambda>m i. if int i = int (length ms) - 1 \<and> P m then f m else m) ms)"
  then have i: "i < length ms" by (simp add: length_map_index)
  show "map_index (\<lambda>m i. if int i = int (length ms) - 1 \<and> P m then f m else m) ms ! i
      = (butlast ms @ [if P (last ms) then f (last ms) else last ms]) ! i"
  proof (cases "i = length ms - 1")
    case True
    then have "int i = int (length ms) - 1" using i by simp
    moreover have "ms ! i = last ms" using True assms by (simp add: last_conv_nth)
    ultimately show ?thesis using i True by (simp add: map_index_nth nth_append)
  next
    case False
    then have "int i \<noteq> int (length ms) - 1" by linarith
    moreover have "i < length ms - 1" using False i by simp
    ultimately show ?thesis using i by (simp add: map_index_nth nth_append nth_butlast)
  qed
qed

lemma set_last_content_snoc:
  "set_last_content acc (ms @ [m]) = ms @ [if role m = Assistant then m\<lparr>content := acc\<rparr> else m]"
  unfolding set_last_content_def
  using map_index_last [of "ms @ [m]" "\<lambda>m. role m = Assistant" "\<lambda>m. m\<lparr>content := acc\<rparr>"]
  by simp

lemma set_last_responseTime_snoc:
  "set_last_responseTime t (ms @ [m]) =
     ms @ [if role m = Assistant then m\<lparr>responseTime := Some t\<rparr> else m]"
  unfolding set_last_responseTime_def
  using map_index_last [of "ms @ [m]" "\<lambda>m. role m = Assistant" "\<lambda>m. m\<lparr>responseTime := Some t\<rparr>"]
  by simp

lemma trim_append_nonblank: "trim s \<noteq> [] \<Longrightarrow> trim (s @ t) \<noteq> []"
  by (auto simp: trim_blank)

lemma read_loop_append: "read_loop (xs @ ys) s = read_loop ys (read_loop xs s)"
  by (induction xs arbitrary: s) simp_all

lemma read_loop_added:
  "read_loop frags (acc, True, st\<lparr>messages := ms @ [\<lparr>role = Assistant, content = acc, responseTime = rt\<rparr>]\<rparr>)
     = (acc @ concat frags, True,
        st\<lparr>messages := ms @ [\<lparr>role = Assistant, content = acc @ concat frags, responseTime = rt\<rparr>]\<rparr>)"
proof (induction frags arbitrary: acc)
  case Nil
  then show ?case by simp
next
  case (Cons f fs)
  have "loop_body f (acc, True, st\<lparr>messages := ms @ [\<lparr>role = Assistant, content = acc, responseTime = rt\<rparr>]\<rparr>)
      = (acc @ f, True, st\<lparr>messages := ms @ [\<lparr>role = Assistant, content = acc @ f, responseTime = rt\<rparr>]\<rparr>)"
    by (simp add: loop_body_def Let_def set_last_content_snoc)
  then show ?case using Cons.IH [of "acc @ f"] by simp
qed

lemma read_loop_fresh:
  "trim acc = [] \<Longrightarrow>
   read_loop frags (acc, False, st)
     = (acc @ concat frags, trim (acc @ concat frags) \<noteq> [],
        st\<lparr>messages := messages st @
          (if trim (acc @ concat frags) = [] then []
           else [\<lparr>role = Assistant, content = acc @ concat frags, responseTime = None\<rparr>])\<rparr>)"
proof (induction frags arbitrary: acc)
  case Nil
  then show ?case by simp
next
  case (Cons f fs)
  show ?case
  proof (cases "trim (acc @ f) = []")
    case True
    then have "loop_body f (acc, False, st) = (acc @ f, False, st)"
      by (simp add: loop_body_def Let_def)
    then show ?thesis using Cons.IH [OF True] by simp
  next
    case False
    then have "loop_body f (acc, False, st)
        = (acc @ f, True, st\<lparr>messages := messages st @
             [\<lparr>role = Assistant, content = acc @ f, responseTime = None\<rparr>]\<rparr>)"
      by (simp add: loop_body_def Let_def)
    moreover have "trim (acc @ f @ concat fs) \<noteq> []"
      using trim_append_nonblank [OF False, of "concat fs"] by simp
    ultimately show ?thesis
      using read_loop_added [where frags = fs and acc = "acc @ f" and st = st and ms = "messages st" and rt = None] by simp
  qed
qed

lemma messages_submit_start:
  "messages (submit_start st) = messages st @ [\<lparr>role = User, content = input st, responseTime = None\<rparr>]"
  by (simp add: submit_start_def fetch_def)

lemma messages_after_eq:
  "messages_after pre st =
     messages st @ \<lparr>role = User, content = input st, responseTime = None\<rparr> #
       (if trim (concat pre) = [] then []
        else [\<lparr>role = Assistant, content = concat pre, responseTime = None\<rparr>])"
  using read_loop_fresh [of "[]" pre "submit_start st"]
  by (simp add: messages_after_def messages_submit_start trim_def)

lemma messages_fetchThreads: "messages (fetchThreads resp st) = messages st"
  by (simp add: fetchThreads_def fetch_def console_error_def Let_def
           split: fetched.splits sum.splits)

lemma messages_submit_catch:
  "messages (submit_catch env e st) = messages st @
     [\<lparr>role = Assistant, content = ''Sorry, there was an error processing your message.'',
       responseTime = Some (errorAt env - startTime env)\<rparr>]"
  by (simp add: submit_catch_def console_error_def Let_def)

lemma read_loop_messages_after:
  "messages (snd (snd (read_loop frags ([], False, submit_start st)))) = messages_after frags st"
  by (simp add: messages_after_def)

lemma handleSubmit_done:
  assumes "trim (input st) \<noteq> []" "\<not> isLoading st"
      and "chatResponse env = Responded True (Some (frags, Done))"
  shows "messages (handleSubmit env st) =
           set_last_responseTime (responseAt env - startTime env) (messages_after frags st)"
  using assms
  by (simp add: handleSubmit_def submit_try_def Let_def messages_fetchThreads
        messages_after_def split: prod.splits)

lemma handleSubmit_messages:
  assumes "trim (input st) \<noteq> []" "\<not> isLoading st"
  shows "messages (handleSubmit env st) =
    (case chatResponse env of
       FetchRejected e \<Rightarrow> messages_after [] st @
         [\<lparr>role = Assistant, content = ''Sorry, there was an error processing your message.'',
           responseTime = Some (errorAt env - startTime env)\<rparr>]
     | Responded ok bd \<Rightarrow>
         if \<not> ok then messages_after [] st @
           [\<lparr>role = Assistant, content = ''Sorry, there was an error processing your message.'',
             responseTime = Some (errorAt env - startTime env)\<rparr>]
         else (case bd of
           None \<Rightarrow> messages_after [] st @
             [\<lparr>role = Assistant, content = ''Sorry, there was an error processing your message.'',
               responseTime = Some (errorAt env - startTime env)\<rparr>]
         | Some (frags, ending) \<Rightarrow>
            (case ending of
               Done \<Rightarrow> set_last_responseTime (responseAt env - startTime env) (messages_after frags st)
             | ReadRejected e \<Rightarrow> messages_after frags st @
             [\<lparr>role = Assistant, content = ''Sorry, there was an error processing your message.'',
               responseTime = Some (errorAt env - startTime env)\<rparr>])))"
  using assms
  by (simp add: handleSubmit_def submit_try_def Let_def messages_fetchThreads
        messages_submit_catch messages_after_def
        split: prod.splits fetched.splits option.splits stream_end.splits)

lemma step_blank:
  assumes "trim (concat pre) = []"
  shows "length (messages_after pre st) \<le> length (messages_after (pre @ [frag]) st) \<and>
     (\<forall>i < length (messages_after pre st).
        messages_after (pre @ [frag]) st ! i = messages_after pre st ! i) \<and>
     role (last (messages_after pre st)) = User"
  using assms by (simp add: messages_after_eq nth_append)

lemma step_text:
  assumes "trim (concat pre) \<noteq> []"
  shows "length (messages_after pre st) \<le> length (messages_after (pre @ [frag]) st) \<and>
     (\<forall>i < length (messages_after pre st) - 1.
        messages_after (pre @ [frag]) st ! i = messages_after pre st ! i) \<and>
     role (last (messages_after pre st)) = Assistant \<and>
     responseTime (last (messages_after pre st)) = None \<and>
     role (messages_after pre st ! (length (messages_after pre st) - 1)) = Assistant \<and>
     messages_after (pre @ [frag]) st =
       butlast (messages_after pre st) @
         [(last (messages_after pre st))
            \<lparr>content := content (last (messages_after pre st)) @ frag\<rparr>]"
proof -
  have "trim (concat pre @ frag) \<noteq> []" using assms by (rule trim_append_nonblank)
  then show ?thesis
    using assms by (simp add: messages_after_eq nth_append butlast_append)
qed

lemma responseTime_during:
  "\<forall>m\<in>set (drop (length (messages st)) (messages_after pre st)). responseTime m = None"
  by (simp add: messages_after_eq)

lemma render_markdown: "map markdown (render_messages ms) = map content ms"
  by (rule nth_equalityI) (simp_all add: render_messages_def length_map_index map_index_nth)

lemma render_key: "map key (render_messages ms) = [0..<length ms]"
  by (rule nth_equalityI) (simp_all add: render_messages_def length_map_index map_index_nth)

lemma set_last_responseTime_after:
  "set_last_responseTime t (messages_after frags st) =
     messages st @ \<lparr>role = User, content = input st, responseTime = None\<rparr> #
       (if trim (concat frags) = [] then []
        else [\<lparr>role = Assistant, content = concat frags, responseTime = Some t\<rparr>])"
proof (cases "trim (concat frags) = []")
  case True
  then show ?thesis
    using set_last_responseTime_snoc [of t "messages st"
        "\<lparr>role = User, content = input st, responseTime = None\<rparr>"]
    by (simp add: messages_after_eq)
next
  case False
  then show ?thesis
    using set_last_responseTime_snoc [of t
        "messages st @ [\<lparr>role = User, content = input st, responseTime = None\<rparr>]"
        "\<lparr>role = Assistant, content = concat frags, responseTime = None\<rparr>"]
    by (simp add: messages_after_eq)
qed

lemma state0_guard:
  "trim (input state0) \<noteq> []" "\<not> isLoading state0"
  by (simp_all add: state0_def trim_def isWhiteSpace_def)

lemma state0_fields:
  "messages state0 = []" "input state0 = ''hi''" "threadId state0 = ''t''"
  "requests state0 = []" "console state0 = []"
  by (simp_all add: state0_def)

lemma submit_env_fields:
  "chatResponse (submit_env r) = r" "startTime (submit_env r) = 100"
  "responseAt (submit_env r) = 130" "errorAt (submit_env r) = 150"
  by (simp_all add: submit_env_def)

lemma delete_loop_requests:
  "requests (delete_loop out k ts st) = requests st @ map (\<lambda>t. DELETE_thread (id_t t)) ts"
  by (induction ts arbitrary: k st)
     (simp_all add: fetch_def console_error_def Let_def split: option.splits)

lemma delete_loop_threads: "threads (delete_loop out k ts st) = threads st"
  by (induction ts arbitrary: k st)
     (simp_all add: fetch_def console_error_def Let_def split: option.splits)

lemma createThread_requests:
  "requests (snd (createThread a resp rnd st)) = requests st @ [POST_threads a]"
  by (simp add: createThread_def fetch_def console_error_def Let_def
           split: fetched.splits sum.splits)

lemma createThread_threads:
  "threads (snd (createThread a resp rnd st)) =
     (case resp of
        Responded True (Inr th) \<Rightarrow> [th]
      | _ \<Rightarrow> []) @ threads st"
  by (simp add: createThread_def fetch_def console_error_def Let_def
           split: fetched.splits sum.splits bool.splits)

lemma handleNewChat_requests:
  "requests (handleNewChat env st) =
     requests st @
       map (\<lambda>t. DELETE_thread (id_t t)) (filter (\<lambda>t. message_count t = 0) (threads st)) @
       [POST_threads None]"
  by (simp add: handleNewChat_def Let_def case_prod_beta createThread_requests
        delete_loop_requests)

lemma handleNewChat_threads:
  "threads (handleNewChat env st) =
     (case createResponse env of
        Responded True (Inr th) \<Rightarrow> [th]
      | _ \<Rightarrow> []) @
     (if length (filter (\<lambda>t. message_count t = 0) (threads st)) > 0
      then filter (\<lambda>t. id_t t \<notin> set (map id_t (filter (\<lambda>t. message_count t = 0) (threads st))))
             (threads st)
      else threads st)"
  by (simp add: handleNewChat_def Let_def case_prod_beta createThread_threads
        delete_loop_threads)

lemma filter_by_id:
  assumes "\<forall>t\<in>set ts. \<forall>e\<in>set ts. message_count e = 0 \<and> id_t t = id_t e \<longrightarrow> message_count t = 0"
  shows "(if length (filter (\<lambda>t. message_count t = 0) ts) > 0
          then filter (\<lambda>t. id_t t \<notin> set (map id_t (filter (\<lambda>t. message_count t = 0) ts))) ts
          else ts) = filter (\<lambda>t. message_count t \<noteq> 0) ts"
proof (cases "filter (\<lambda>t. message_count t = 0) ts = []")
  case True
  then have "\<forall>t\<in>set ts. message_count t \<noteq> 0" by (simp add: filter_empty_conv)
  then have "filter (\<lambda>t. message_count t \<noteq> 0) ts = ts" by simp
  with True show ?thesis by simp
next
  case False
  have "filter (\<lambda>t. id_t t \<notin> set (map id_t (filter (\<lambda>t. message_count t = 0) ts))) ts
      = filter (\<lambda>t. message_count t \<noteq> 0) ts"
  proof (rule filter_cong [OF refl])
    fix t assume t: "t \<in> set ts"
    show "(id_t t \<notin> set (map id_t (filter (\<lambda>t. message_count t = 0) ts))) = (message_count t \<noteq> 0)"
      using assms t by auto
  qed
  with False show ?thesis by simp
qed

lemma ToInt32_random:
  assumes "0 \<le> u" "u < 1"
  shows "ToInt32 (u * 16) = \<lfloor>u * 16\<rfloor> \<and> 0 \<le> \<lfloor>u * 16\<rfloor> \<and> \<lfloor>u * 16\<rfloor> < 16"
proof -
  have a: "0 \<le> u * 16" using assms by simp
  have b: "u * 16 < 16" using assms by simp
  have lo: "0 \<le> \<lfloor>u * 16\<rfloor>" using a by simp
  have hi: "\<lfloor>u * 16\<rfloor> < 16" using b by (simp add: floor_less_iff)
  have m: "\<lfloor>u * 16\<rfloor> mod 2 ^ 32 = \<lfloor>u * 16\<rfloor>" using lo hi by simp
  have "\<not> u * 16 < 0" using a by simp
  then have "ToInt32 (u * 16) = \<lfloor>u * 16\<rfloor>"
    using m hi by (simp add: ToInt32_def Let_def)
  with lo hi show ?thesis by simp
qed

lemma and3_cases:
  assumes "0 \<le> (r::int)"
  shows "r AND 3 = 0 \<or> r AND 3 = 1 \<or> r AND 3 = 2 \<or> r AND 3 = 3"
proof -
  have "0 \<le> r AND 3" using assms by simp
  moreover have "r AND 3 \<le> 3" by (rule AND_upper2) simp
  ultimately show ?thesis by arith
qed

lemma toString16_digit: "0 \<le> v \<Longrightarrow> v < 16 \<Longrightarrow> toString16 v = [hexDigit (nat v)]"
  by (simp add: toString16_def toString16_nat.simps)

lemma hexDigit_mem: "d < 16 \<Longrightarrow> hexDigit d \<in> set ''0123456789abcdef''"
  unfolding hexDigit_def by (rule nth_mem) simp

lemma replacer_x:
  assumes "0 \<le> u" "u < 1"
  shows "\<exists>h. replacer CHR ''x'' u = [h] \<and> h \<in> set ''0123456789abcdef''"
proof -
  note r = ToInt32_random [OF assms]
  have "replacer CHR ''x'' u = [hexDigit (nat \<lfloor>u * 16\<rfloor>)]"
    using r by (simp add: replacer_def Let_def toString16_digit)
  moreover have "nat \<lfloor>u * 16\<rfloor> < 16" using r by linarith
  then have "hexDigit (nat \<lfloor>u * 16\<rfloor>) \<in> set ''0123456789abcdef''"
    by (rule hexDigit_mem)
  ultimately show ?thesis by blast
qed

lemma variant_bits:
  assumes "0 \<le> (r::int)"
  shows "toString16 ((r AND 3) OR 8) \<in> {''8'', ''9'', ''a'', ''b''}"
  using and3_cases [OF assms]
  by (elim disjE) (simp_all add: toString16_def toString16_nat.simps hexDigit_def)

lemma replacer_y:
  assumes "0 \<le> u" "u < 1"
  shows "\<exists>h. replacer CHR ''y'' u = [h] \<and> h \<in> set ''89ab''"
proof -
  note r = ToInt32_random [OF assms]
  have "replacer CHR ''y'' u = toString16 ((\<lfloor>u * 16\<rfloor> AND 3) OR 8)"
    using r by (simp add: replacer_def Let_def)
  then show ?thesis using variant_bits [of "\<lfloor>u * 16\<rfloor>"] r by auto
qed


lemma replace_xy_format:
  assumes "\<forall>k. 0 \<le> rnd k \<and> rnd k < 1"
  shows "length (replace_xy t rnd k) = length t \<and>
     (\<forall>i<length t.
        (t ! i = CHR ''x'' \<longrightarrow> replace_xy t rnd k ! i \<in> set ''0123456789abcdef'') \<and>
        (t ! i = CHR ''y'' \<longrightarrow> replace_xy t rnd k ! i \<in> set ''89ab'') \<and>
        (t ! i \<noteq> CHR ''x'' \<and> t ! i \<noteq> CHR ''y'' \<longrightarrow> replace_xy t rnd k ! i = t ! i))"
proof (induction t arbitrary: k)
  case Nil
  then show ?case by simp
next
  case (Cons c cs)
  from assms have u: "0 \<le> rnd k" "rnd k < 1" by simp_all
  obtain hx where hx: "replacer CHR ''x'' (rnd k) = [hx]" "hx \<in> set ''0123456789abcdef''"
    using replacer_x [OF u] by blast
  obtain hy where hy: "replacer CHR ''y'' (rnd k) = [hy]" "hy \<in> set ''89ab''"
    using replacer_y [OF u] by blast
  note IH1 = Cons.IH [of "Suc k"] and IH2 = Cons.IH [of k]
  show ?case
  proof (intro conjI allI impI)
    show "length (replace_xy (c # cs) rnd k) = length (c # cs)"
      using IH1 IH2 hx hy by auto
  next
    fix i assume i: "i < length (c # cs)" and x: "(c # cs) ! i = CHR ''x''"
    show "replace_xy (c # cs) rnd k ! i \<in> set ''0123456789abcdef''"
    proof (cases i)
      case 0
      then show ?thesis using x hx by simp
    next
      case (Suc j)
      then show ?thesis using i x IH1 IH2 hx hy by auto
    qed
  next
    fix i assume i: "i < length (c # cs)" and y: "(c # cs) ! i = CHR ''y''"
    show "replace_xy (c # cs) rnd k ! i \<in> set ''89ab''"
    proof (cases i)
      case 0
      then show ?thesis using y hy by simp
    next
      case (Suc j)
      then show ?thesis using i y IH1 IH2 hx hy by auto
    qed
  next
    fix i assume i: "i < length (c # cs)"
      and n: "(c # cs) ! i \<noteq> CHR ''x'' \<and> (c # cs) ! i \<noteq> CHR ''y''"
    show "replace_xy (c # cs) rnd k ! i = (c # cs) ! i"
    proof (cases i)
      case 0
      then show ?thesis using n by simp
    next
      case (Suc j)
      then show ?thesis using i n IH1 IH2 hx hy by auto
    qed
  qed
qed


lemma template_nth_all:
  "\<forall>i<36. ''xxxxxxxx-xxxx-4xxx-yxxx-xxxxxxxxxxxx'' ! i =
     (if i = 8 \<or> i = 13 \<or> i = 18 \<or> i = 23 then CHR ''-''
      else if i = 14 then CHR ''4'' else if i = 19 then CHR ''y'' else CHR ''x'')"
  by (simp add: numeral_eq_Suc All_less_Suc)

lemma template_nth:
  assumes "i < 36"
  shows "''xxxxxxxx-xxxx-4xxx-yxxx-xxxxxxxxxxxx'' ! i =
     (if i = 8 \<or> i = 13 \<or> i = 18 \<or> i = 23 then CHR ''-''
      else if i = 14 then CHR ''4'' else if i = 19 then CHR ''y'' else CHR ''x'')"
  using template_nth_all assms by blast

lemma createThread_fallback:
  "\<forall>th. resp \<noteq> Responded True (Inr th) \<Longrightarrow>
   fst (createThread title_arg resp rnd st) = generateUUID rnd"
  by (simp add: createThread_def Let_def split: fetched.splits sum.splits)

lemma handleNewChat_threadId:
  "threadId (handleNewChat env st) =
     fst (createThread None (createResponse env) (random env)
       (if length (filter (\<lambda>t. message_count t = 0) (threads st)) > 0
        then (delete_loop (deleteOutcome env) 0 (filter (\<lambda>t. message_count t = 0) (threads st)) st)
          \<lparr>threads := filter (\<lambda>t. id_t t \<notin> set (map id_t (filter (\<lambda>t. message_count t = 0) (threads st))))
             (threads (delete_loop (deleteOutcome env) 0 (filter (\<lambda>t. message_count t = 0) (threads st)) st))\<rparr>
        else delete_loop (deleteOutcome env) 0 (filter (\<lambda>t. message_count t = 0) (threads st)) st))"
  by (simp add: handleNewChat_def Let_def case_prod_beta)

lemma version_apply_mutation: "version (apply_mutation m idx) = version idx + 1"
  by (cases m) (simp_all add: upsert_def delete_source_def flush_def)

lemma version_apply_mutations: "version (apply_mutations ms idx) = version idx + length ms"
  by (induction ms arbitrary: idx) (simp_all add: version_apply_mutation)

section \<open>The guard of handleSubmit\<close>

text \<open>
  C8. When the input is empty or only whitespace, or a request is in flight
  (\<open>isLoading\<close>), \<open>handleSubmit\<close> returns at once: the whole state is unchanged, so no
  request is issued and the message list, the input text, the thread list and the
  loading flag are what they were.
\<close>

theorem handleSubmit_guard:
  "trim (input st) = [] \<or> isLoading st \<Longrightarrow>
     handleSubmit env st = st \<and>
     requests (handleSubmit env st) = requests st \<and>
     messages (handleSubmit env st) = messages st \<and>
     input (handleSubmit env st) = input st \<and>
     threads (handleSubmit env st) = threads st \<and>
     isLoading (handleSubmit env st) = isLoading st"
  by (simp add: handleSubmit_def)

theorem handleSubmit_guard_witness:
  "trim (input (state0\<lparr>input := ''  ''\<rparr>)) = [] \<and>
   handleSubmit (submit_env (Responded True None)) (state0\<lparr>input := ''  ''\<rparr>)
     = state0\<lparr>input := ''  ''\<rparr> \<and>
   isLoading (state0\<lparr>isLoading := True\<rparr>) \<and>
   handleSubmit (submit_env (Responded True None)) (state0\<lparr>isLoading := True\<rparr>)
     = state0\<lparr>isLoading := True\<rparr>"
proof -
  have h: "trim (input (state0\<lparr>input := ''  ''\<rparr>)) = []"
    by (simp add: trim_def isWhiteSpace_def state0_def)
  have g: "isLoading (state0\<lparr>isLoading := True\<rparr>)" by simp
  show ?thesis
    using h g
      handleSubmit_guard [of "state0\<lparr>input := ''  ''\<rparr>" "submit_env (Responded True None)"]
      handleSubmit_guard [of "state0\<lparr>isLoading := True\<rparr>" "submit_env (Responded True None)"]
    by simp
qed

section \<open>Streams without text\<close>

text \<open>
  C9. When the chat request succeeds and the streamed body is empty or holds only
  whitespace, no assistant message is appended: once the stream has ended the message
  list is the previous one followed by the user's message alone, the update that
  attaches \<open>responseTime\<close> leaves that list as it is, and so this is also the list when
  \<open>handleSubmit\<close> returns.
\<close>

theorem handleSubmit_blank_stream:
  assumes "trim (input st) \<noteq> []" and "\<not> isLoading st"
      and "chatResponse env = Responded True (Some (frags, Done))"
      and "\<forall>c\<in>set (concat frags). isWhiteSpace c"
  shows "messages_after frags st =
           messages st @ [\<lparr>role = User, content = input st, responseTime = None\<rparr>] \<and>
         set_last_responseTime (responseAt env - startTime env) (messages_after frags st) =
           messages_after frags st \<and>
         messages (handleSubmit env st) =
           messages st @ [\<lparr>role = User, content = input st, responseTime = None\<rparr>]"
proof -
  have b: "trim (concat frags) = []" using assms(4) by (simp only: trim_blank)
  have a: "messages_after frags st =
           messages st @ [\<lparr>role = User, content = input st, responseTime = None\<rparr>]"
    by (simp add: messages_after_eq b)
  have c: "set_last_responseTime (responseAt env - startTime env) (messages_after frags st) =
           messages_after frags st"
    unfolding a by (simp add: set_last_responseTime_snoc)
  show ?thesis using a c handleSubmit_done [OF assms(1,2,3)] by simp
qed

theorem handleSubmit_blank_stream_witness:
  "trim (input state0) \<noteq> [] \<and> \<not> isLoading state0 \<and>
   messages (handleSubmit (submit_env (Responded True (Some ([''  '', [], '' ''], Done)))) state0)
     = [\<lparr>role = User, content = ''hi'', responseTime = None\<rparr>] \<and>
   set_last_responseTime 30 (messages_after [''  '', [], '' ''] state0)
     = messages_after [''  '', [], '' ''] state0"
proof -
  have h1: "trim (input state0) \<noteq> []"
    by (simp add: state0_def trim_def isWhiteSpace_def)
  have h2: "\<not> isLoading state0" by (simp add: state0_def)
  have h3: "chatResponse (submit_env (Responded True (Some ([''  '', [], '' ''], Done))))
      = Responded True (Some ([''  '', [], '' ''], Done))"
    by (simp add: submit_env_def)
  have h4: "\<forall>c\<in>set (concat [''  '', [], '' '']). isWhiteSpace c"
    by (simp add: isWhiteSpace_def)
  have m: "messages state0 = []" and i: "input state0 = ''hi''"
    by (simp_all add: state0_def)
  have t: "responseAt (submit_env (Responded True (Some ([''  '', [], '' ''], Done))))
      - startTime (submit_env (Responded True (Some ([''  '', [], '' ''], Done)))) = 30"
    by (simp add: submit_env_def)
  show ?thesis
    using h1 h2 handleSubmit_blank_stream [OF h1 h2 h3 h4]
    by (simp add: m i t set_last_responseTime_def map_index_def)
qed

section \<open>Streams with text\<close>

text \<open>
  C3. When the chat request succeeds and the streamed body is a finite sequence of
  fragments with at least one non-whitespace character, the loop renders
  incrementally: some chunk \<open>frag\<close> of the body is the one whose reading creates the
  assistant message, while the reads of the chunks after it and the read that reports
  the end are still to come; after every initial part \<open>pre\<close> of the body that holds
  text, the assistant message shows the concatenation of \<open>pre\<close>; and when
  \<open>handleSubmit\<close> returns, the assistant message's content is the concatenation of
  all fragments in arrival order.
\<close>

theorem handleSubmit_streams_text:
  assumes "trim (input st) \<noteq> []" and "\<not> isLoading st"
      and "chatResponse env = Responded True (Some (frags, Done))"
      and "\<exists>c\<in>set (concat frags). \<not> isWhiteSpace c"
  shows "(\<exists>pre frag post. frags = pre @ frag # post \<and>
            messages_after pre st =
              messages st @ [\<lparr>role = User, content = input st, responseTime = None\<rparr>] \<and>
            messages_after (pre @ [frag]) st =
              messages st @ [\<lparr>role = User, content = input st, responseTime = None\<rparr>,
                \<lparr>role = Assistant, content = concat (pre @ [frag]), responseTime = None\<rparr>]) \<and>
         (\<forall>pre post. frags = pre @ post \<and> (\<exists>c\<in>set (concat pre). \<not> isWhiteSpace c) \<longrightarrow>
            messages_after pre st =
              messages st @ [\<lparr>role = User, content = input st, responseTime = None\<rparr>,
                \<lparr>role = Assistant, content = concat pre, responseTime = None\<rparr>]) \<and>
         messages (handleSubmit env st) =
           messages st @ [\<lparr>role = User, content = input st, responseTime = None\<rparr>,
             \<lparr>role = Assistant, content = concat frags,
               responseTime = Some (responseAt env - startTime env)\<rparr>]"
proof -
  have nb: "trim (concat frags) \<noteq> []" using assms(4) by (simp only: trim_blank) blast
  have fin: "messages (handleSubmit env st) =
           messages st @ [\<lparr>role = User, content = input st, responseTime = None\<rparr>,
             \<lparr>role = Assistant, content = concat frags,
               responseTime = Some (responseAt env - startTime env)\<rparr>]"
    using handleSubmit_done [OF assms(1,2,3)] nb
      set_last_responseTime_snoc [of "responseAt env - startTime env"
        "messages st @ [\<lparr>role = User, content = input st, responseTime = None\<rparr>]"
        "\<lparr>role = Assistant, content = concat frags, responseTime = None\<rparr>"]
    by (simp add: messages_after_eq)
  have inc: "\<forall>pre post. frags = pre @ post \<and> (\<exists>c\<in>set (concat pre). \<not> isWhiteSpace c) \<longrightarrow>
            messages_after pre st =
              messages st @ [\<lparr>role = User, content = input st, responseTime = None\<rparr>,
                \<lparr>role = Assistant, content = concat pre, responseTime = None\<rparr>]"
  proof (intro allI impI)
    fix pre post
    assume "frags = pre @ post \<and> (\<exists>c\<in>set (concat pre). \<not> isWhiteSpace c)"
    then have "trim (concat pre) \<noteq> []" by (simp only: trim_blank) blast
    then show "messages_after pre st =
              messages st @ [\<lparr>role = User, content = input st, responseTime = None\<rparr>,
                \<lparr>role = Assistant, content = concat pre, responseTime = None\<rparr>]"
      by (simp add: messages_after_eq)
  qed
  have "\<exists>pre frag post. frags = pre @ frag # post \<and> trim (concat pre) = [] \<and>
          trim (concat (pre @ [frag])) \<noteq> []"
    using nb
  proof (induction frags rule: rev_induct)
    case Nil
    then show ?case by (simp add: trim_def)
  next
    case (snoc x xs)
    show ?case
    proof (cases "trim (concat xs) = []")
      case True
      with snoc.prems show ?thesis by (intro exI [of _ xs] exI [of _ x] exI [of _ "[]"]) simp
    next
      case False
      from snoc.IH [OF False] obtain pre frag post where
        "xs = pre @ frag # post" "trim (concat pre) = []" "trim (concat (pre @ [frag])) \<noteq> []"
        by blast
      then show ?thesis
        by (intro exI [of _ pre] exI [of _ frag] exI [of _ "post @ [x]"]) simp
    qed
  qed
  then obtain pre frag post where
    "frags = pre @ frag # post" "trim (concat pre) = []" "trim (concat (pre @ [frag])) \<noteq> []"
    by blast
  then have "frags = pre @ frag # post \<and>
            messages_after pre st =
              messages st @ [\<lparr>role = User, content = input st, responseTime = None\<rparr>] \<and>
            messages_after (pre @ [frag]) st =
              messages st @ [\<lparr>role = User, content = input st, responseTime = None\<rparr>,
                \<lparr>role = Assistant, content = concat (pre @ [frag]), responseTime = None\<rparr>]"
    by (simp add: messages_after_eq)
  then have first: "\<exists>pre frag post. frags = pre @ frag # post \<and>
            messages_after pre st =
              messages st @ [\<lparr>role = User, content = input st, responseTime = None\<rparr>] \<and>
            messages_after (pre @ [frag]) st =
              messages st @ [\<lparr>role = User, content = input st, responseTime = None\<rparr>,
                \<lparr>role = Assistant, content = concat (pre @ [frag]), responseTime = None\<rparr>]"
    by blast
  show ?thesis using first inc fin by blast
qed

theorem handleSubmit_streams_text_witness:
  "trim (input state0) \<noteq> [] \<and> \<not> isLoading state0 \<and>
   messages_after ['' He''] state0
     = [\<lparr>role = User, content = ''hi'', responseTime = None\<rparr>,
        \<lparr>role = Assistant, content = '' He'', responseTime = None\<rparr>] \<and>
   messages (handleSubmit (submit_env (Responded True (Some (['' He'', ''llo''], Done)))) state0)
     = [\<lparr>role = User, content = ''hi'', responseTime = None\<rparr>,
        \<lparr>role = Assistant, content = '' Hello'', responseTime = Some 30\<rparr>]"
proof -
  have h1: "trim (input state0) \<noteq> []"
    by (simp add: state0_def trim_def isWhiteSpace_def)
  have h2: "\<not> isLoading state0" by (simp add: state0_def)
  have h3: "chatResponse (submit_env (Responded True (Some (['' He'', ''llo''], Done))))
      = Responded True (Some (['' He'', ''llo''], Done))"
    by (simp add: submit_env_def)
  have h4: "\<exists>c\<in>set (concat ['' He'', ''llo'']). \<not> isWhiteSpace c"
    by (simp add: isWhiteSpace_def)
  have h5: "\<exists>c\<in>set (concat ['' He'']). \<not> isWhiteSpace c"
    by (simp add: isWhiteSpace_def)
  note T = handleSubmit_streams_text [OF h1 h2 h3 h4]
  from T have "\<forall>pre post. ['' He'', ''llo''] = pre @ post \<and> (\<exists>c\<in>set (concat pre). \<not> isWhiteSpace c) \<longrightarrow>
            messages_after pre state0 =
              messages state0 @ [\<lparr>role = User, content = input state0, responseTime = None\<rparr>,
                \<lparr>role = Assistant, content = concat pre, responseTime = None\<rparr>]"
    by blast
  then have a: "messages_after ['' He''] state0 =
              messages state0 @ [\<lparr>role = User, content = input state0, responseTime = None\<rparr>,
                \<lparr>role = Assistant, content = concat ['' He''], responseTime = None\<rparr>]"
    using h5 by (metis append_Cons append_Nil)
  from T have b: "messages (handleSubmit (submit_env (Responded True (Some (['' He'', ''llo''], Done)))) state0) =
           messages state0 @ [\<lparr>role = User, content = input state0, responseTime = None\<rparr>,
             \<lparr>role = Assistant, content = concat ['' He'', ''llo''],
               responseTime = Some (responseAt (submit_env (Responded True (Some (['' He'', ''llo''], Done))))
                  - startTime (submit_env (Responded True (Some (['' He'', ''llo''], Done)))))\<rparr>]"
    by blast
  show ?thesis
    using h1 h2 a b by (simp add: state0_def submit_env_def)
qed

section \<open>Failed requests\<close>

text \<open>
  C5. When the fetch of \<open>POST /chat\<close> rejects, or the response is not ok, or the
  response has no body to read, \<open>handleSubmit\<close> appends, after the user's message,
  exactly one assistant message whose content is the fixed sentence
  "Sorry, there was an error processing your message."; the error detail is written
  to the console only, and nothing else enters the message list.
\<close>

theorem handleSubmit_request_failure:
  assumes "trim (input st) \<noteq> []" and "\<not> isLoading st"
      and "chatResponse env = FetchRejected e \<or> chatResponse env = Responded False b \<or>
           chatResponse env = Responded True None"
  shows "messages (handleSubmit env st) =
           messages st @
             [\<lparr>role = User, content = input st, responseTime = None\<rparr>,
              \<lparr>role = Assistant,
                content = ''Sorry, there was an error processing your message.'',
                responseTime = Some (errorAt env - startTime env)\<rparr>] \<and>
         console (handleSubmit env st) =
           console st @
             [(''Error:'',
               case chatResponse env of
                 FetchRejected d \<Rightarrow> d
               | Responded ok bd \<Rightarrow>
                   if ok then ''No response body'' else ''Failed to get response'')] \<and>
         requests (handleSubmit env st) = requests st @ [POST_chat (input st) (threadId st)] \<and>
         \<not> isLoading (handleSubmit env st)"
  using assms
  by (auto simp: handleSubmit_def submit_try_def submit_catch_def submit_start_def
        console_error_def fetch_def Let_def)

theorem handleSubmit_request_failure_witness:
  "trim (input state0) \<noteq> [] \<and> \<not> isLoading state0 \<and>
   messages (handleSubmit (submit_env (Responded False None)) state0) =
     [\<lparr>role = User, content = ''hi'', responseTime = None\<rparr>,
      \<lparr>role = Assistant, content = ''Sorry, there was an error processing your message.'',
        responseTime = Some 50\<rparr>] \<and>
   console (handleSubmit (submit_env (Responded False None)) state0) =
     [(''Error:'', ''Failed to get response'')] \<and>
   requests (handleSubmit (submit_env (Responded False None)) state0) = [POST_chat ''hi'' ''t'']"
proof -
  have h3: "chatResponse (submit_env (Responded False None)) = FetchRejected [] \<or>
      chatResponse (submit_env (Responded False None)) = Responded False None \<or>
      chatResponse (submit_env (Responded False None)) = Responded True None"
    by (simp add: submit_env_fields)
  show ?thesis
    using state0_guard handleSubmit_request_failure [OF state0_guard h3]
    by (simp add: state0_fields submit_env_fields)
qed

section \<open>Messages are only appended to\<close>

text \<open>
  C4. During the consumption of the stream every update step (the reading of a chunk
  \<open>frag\<close> after the chunks \<open>pre\<close>) keeps the list at least as long and leaves every
  message already present unchanged, except the last one when it is the assistant
  message of this request; that message keeps its role and its absent
  \<open>responseTime\<close> and gets the content it had extended by \<open>frag\<close>. No message of
  this request carries a \<open>responseTime\<close> while the stream is read; it is attached
  once, to the assistant message, by the update after the stream is fully consumed.
\<close>

theorem stream_updates_append_only:
  assumes "trim (input st) \<noteq> []" and "\<not> isLoading st"
      and "chatResponse env = Responded True (Some (frags, Done))"
  shows "(\<forall>pre frag post. frags = pre @ frag # post \<longrightarrow>
            length (messages_after pre st) \<le> length (messages_after (pre @ [frag]) st) \<and>
            (\<forall>i < length (messages_after pre st).
               i < length (messages_after pre st) - 1 \<or> role (messages_after pre st ! i) = User \<longrightarrow>
               messages_after (pre @ [frag]) st ! i = messages_after pre st ! i) \<and>
            (role (last (messages_after pre st)) = Assistant \<longrightarrow>
               responseTime (last (messages_after pre st)) = None \<and>
               messages_after (pre @ [frag]) st =
                 butlast (messages_after pre st) @
                   [(last (messages_after pre st))
                      \<lparr>content := content (last (messages_after pre st)) @ frag\<rparr>]) \<and>
            (\<forall>m\<in>set (drop (length (messages st)) (messages_after (pre @ [frag]) st)).
               responseTime m = None)) \<and>
         messages (handleSubmit env st) =
           (if role (last (messages_after frags st)) = Assistant
            then butlast (messages_after frags st) @
                   [(last (messages_after frags st))
                      \<lparr>responseTime := Some (responseAt env - startTime env)\<rparr>]
            else messages_after frags st)"
proof (intro conjI allI impI)
  fix pre frag post
  assume "frags = pre @ frag # post"
  show "length (messages_after pre st) \<le> length (messages_after (pre @ [frag]) st)"
    using step_blank [of pre st frag] step_text [of pre st frag] by blast
next
  fix pre frag post i
  assume "frags = pre @ frag # post"
    and i: "i < length (messages_after pre st)"
    and c: "i < length (messages_after pre st) - 1 \<or> role (messages_after pre st ! i) = User"
  show "messages_after (pre @ [frag]) st ! i = messages_after pre st ! i"
  proof (cases "trim (concat pre) = []")
    case True
    then show ?thesis using step_blank [of pre st frag] i by blast
  next
    case False
    note s = step_text [OF False, of st frag]
    have "i < length (messages_after pre st) - 1"
    proof (rule ccontr)
      assume "\<not> i < length (messages_after pre st) - 1"
      then have "i = length (messages_after pre st) - 1" using i by simp
      then show False using c s by auto
    qed
    then show ?thesis using s by blast
  qed
next
  fix pre frag post
  assume "frags = pre @ frag # post" and a: "role (last (messages_after pre st)) = Assistant"
  have nb: "trim (concat pre) \<noteq> []"
  proof
    assume "trim (concat pre) = []"
    then have "role (last (messages_after pre st)) = User"
      using step_blank [of pre st frag] by blast
    with a show False by simp
  qed
  show "responseTime (last (messages_after pre st)) = None"
    using step_text [OF nb, of st frag] by blast
  show "messages_after (pre @ [frag]) st =
          butlast (messages_after pre st) @
            [(last (messages_after pre st))
               \<lparr>content := content (last (messages_after pre st)) @ frag\<rparr>]"
    using step_text [OF nb, of st frag] by blast
next
  fix pre frag post
  show "\<forall>m\<in>set (drop (length (messages st)) (messages_after (pre @ [frag]) st)).
          responseTime m = None"
    by (rule responseTime_during)
next
  have "messages_after frags st \<noteq> []" by (simp add: messages_after_eq)
  then have "set_last_responseTime (responseAt env - startTime env) (messages_after frags st)
      = butlast (messages_after frags st) @
          [if role (last (messages_after frags st)) = Assistant
           then (last (messages_after frags st))\<lparr>responseTime := Some (responseAt env - startTime env)\<rparr>
           else last (messages_after frags st)]"
    unfolding set_last_responseTime_def by (rule map_index_last)
  then show "messages (handleSubmit env st) =
           (if role (last (messages_after frags st)) = Assistant
            then butlast (messages_after frags st) @
                   [(last (messages_after frags st))
                      \<lparr>responseTime := Some (responseAt env - startTime env)\<rparr>]
            else messages_after frags st)"
    using handleSubmit_done [OF assms] \<open>messages_after frags st \<noteq> []\<close> by simp
qed

theorem stream_updates_append_only_witness:
  "trim (input state0) \<noteq> [] \<and> \<not> isLoading state0 \<and>
   messages_after ['' He''] state0 =
     [\<lparr>role = User, content = ''hi'', responseTime = None\<rparr>,
      \<lparr>role = Assistant, content = '' He'', responseTime = None\<rparr>] \<and>
   messages_after ['' He'', ''llo''] state0 =
     [\<lparr>role = User, content = ''hi'', responseTime = None\<rparr>,
      \<lparr>role = Assistant, content = '' Hello'', responseTime = None\<rparr>] \<and>
   messages (handleSubmit (submit_env (Responded True (Some (['' He'', ''llo''], Done)))) state0) =
     [\<lparr>role = User, content = ''hi'', responseTime = None\<rparr>,
      \<lparr>role = Assistant, content = '' Hello'', responseTime = Some 30\<rparr>]"
proof -
  let ?E = "submit_env (Responded True (Some (['' He'', ''llo''], Done)))"
  have h3: "chatResponse ?E = Responded True (Some (['' He'', ''llo''], Done))"
    by (simp add: submit_env_fields)
  note T = stream_updates_append_only [OF state0_guard h3]
  have a: "messages_after ['' He''] state0 =
     [\<lparr>role = User, content = ''hi'', responseTime = None\<rparr>,
      \<lparr>role = Assistant, content = '' He'', responseTime = None\<rparr>]"
    by (simp add: messages_after_eq state0_fields trim_def isWhiteSpace_def)
  have split: "['' He'', ''llo''] = ['' He''] @ ''llo'' # []" by simp
  from T have "role (last (messages_after ['' He''] state0)) = Assistant \<longrightarrow>
      messages_after (['' He''] @ [''llo'']) state0 =
        butlast (messages_after ['' He''] state0) @
          [(last (messages_after ['' He''] state0))
             \<lparr>content := content (last (messages_after ['' He''] state0)) @ ''llo''\<rparr>]"
    using split by blast
  then have b: "messages_after ['' He'', ''llo''] state0 =
     [\<lparr>role = User, content = ''hi'', responseTime = None\<rparr>,
      \<lparr>role = Assistant, content = '' Hello'', responseTime = None\<rparr>]"
    by (simp add: a)
  from T have "messages (handleSubmit ?E state0) =
           (if role (last (messages_after ['' He'', ''llo''] state0)) = Assistant
            then butlast (messages_after ['' He'', ''llo''] state0) @
                   [(last (messages_after ['' He'', ''llo''] state0))
                      \<lparr>responseTime := Some (responseAt ?E - startTime ?E)\<rparr>]
            else messages_after ['' He'', ''llo''] state0)"
    by blast
  then have c: "messages (handleSubmit ?E state0) =
     [\<lparr>role = User, content = ''hi'', responseTime = None\<rparr>,
      \<lparr>role = Assistant, content = '' Hello'', responseTime = Some 30\<rparr>]"
    by (simp add: b submit_env_fields)
  show ?thesis using state0_guard a b c by simp
qed

section \<open>Send order\<close>

text \<open>
  C6. In every run of \<open>handleSubmit\<close> that passes the guard, whatever the response,
  the user's message is appended first (the list is then the previous one followed by
  it), and at every later moment of the run and on return everything added for this
  request after it is assistant content at higher indices. The page renders the
  messages by ascending list index, so the rendered order is the order of appending.
\<close>

theorem handleSubmit_send_order:
  assumes "trim (input st) \<noteq> []" and "\<not> isLoading st"
  shows "messages (submit_start st) =
           messages st @ [\<lparr>role = User, content = input st, responseTime = None\<rparr>] \<and>
         (\<forall>pre. \<exists>rest.
            messages_after pre st =
              messages st @ \<lparr>role = User, content = input st, responseTime = None\<rparr> # rest \<and>
            (\<forall>m\<in>set rest. role m = Assistant)) \<and>
         (\<exists>rest.
            messages (handleSubmit env st) =
              messages st @ \<lparr>role = User, content = input st, responseTime = None\<rparr> # rest \<and>
            (\<forall>m\<in>set rest. role m = Assistant)) \<and>
         map markdown (render_messages (messages (handleSubmit env st))) =
           map content (messages (handleSubmit env st)) \<and>
         map key (render_messages (messages (handleSubmit env st))) =
           [0..<length (messages (handleSubmit env st))]"
proof -
  let ?u = "\<lparr>role = User, content = input st, responseTime = None\<rparr>"
  let ?err = "\<lparr>role = Assistant,
     content = ''Sorry, there was an error processing your message.'',
     responseTime = Some (errorAt env - startTime env)\<rparr>"
  have during: "\<exists>rest. messages_after pre st = messages st @ ?u # rest \<and>
            (\<forall>m\<in>set rest. role m = Assistant)" for pre
    by (simp add: messages_after_eq)
  have fin: "\<exists>rest. messages (handleSubmit env st) = messages st @ ?u # rest \<and>
            (\<forall>m\<in>set rest. role m = Assistant)"
  proof (cases "chatResponse env")
    case (FetchRejected e)
    then have "messages (handleSubmit env st) = messages st @ ?u # [?err]"
      using handleSubmit_messages [OF assms, of env] by (simp add: messages_after_eq trim_def)
    then show ?thesis by simp
  next
    case (Responded ok bd)
    show ?thesis
    proof (cases "ok \<and> bd \<noteq> None")
      case False
      then have "messages (handleSubmit env st) = messages st @ ?u # [?err]"
        using handleSubmit_messages [OF assms, of env] Responded
        by (auto simp: messages_after_eq trim_def split: option.splits)
      then show ?thesis by simp
    next
      case True
      then obtain frags ending where bd: "bd = Some (frags, ending)" by auto
      show ?thesis
      proof (cases ending)
        case Done
        then have "messages (handleSubmit env st) =
            set_last_responseTime (responseAt env - startTime env) (messages_after frags st)"
          using handleSubmit_messages [OF assms, of env] Responded True bd by simp
        then show ?thesis by (simp add: set_last_responseTime_after)
      next
        case (ReadRejected e)
        then have "messages (handleSubmit env st) = messages_after frags st @ [?err]"
          using handleSubmit_messages [OF assms, of env] Responded True bd by simp
        then show ?thesis by (simp add: messages_after_eq)
      qed
    qed
  qed
  show ?thesis
    using during fin by (simp add: messages_submit_start render_markdown render_key)
qed

theorem handleSubmit_send_order_witness:
  "trim (input state0) \<noteq> [] \<and> \<not> isLoading state0 \<and>
   messages (submit_start state0) = [\<lparr>role = User, content = ''hi'', responseTime = None\<rparr>] \<and>
   map markdown (render_messages
       (messages (handleSubmit (submit_env (Responded True (Some (['' He'', ''llo''], Done)))) state0))) =
     map content (messages (handleSubmit (submit_env (Responded True (Some (['' He'', ''llo''], Done)))) state0)) \<and>
   map key (render_messages
       (messages (handleSubmit (submit_env (Responded True (Some (['' He'', ''llo''], Done)))) state0))) =
     [0..<length (messages (handleSubmit (submit_env (Responded True (Some (['' He'', ''llo''], Done)))) state0))]"
  using state0_guard
    handleSubmit_send_order [OF state0_guard,
      of "submit_env (Responded True (Some (['' He'', ''llo''], Done)))"]
  by (simp add: state0_fields)

section \<open>Starting a new chat\<close>

text \<open>
  C2. For every thread list in which no thread with a non-zero \<open>message_count\<close>
  has the id of a thread with \<open>message_count = 0\<close> (so whenever ids are unique),
  \<open>handleNewChat\<close> issues one \<open>DELETE\<close> for each thread with
  \<open>message_count = 0\<close>, in list order, and for no other thread, then exactly one
  thread-creation request, after all the deletions; and the local thread list becomes
  the threads with a non-zero \<open>message_count\<close>, in their order, preceded by the new
  thread when its creation succeeded.
\<close>

theorem handleNewChat_cleanup:
  assumes "\<forall>t\<in>set (threads st). \<forall>e\<in>set (threads st).
             message_count e = 0 \<and> id_t t = id_t e \<longrightarrow> message_count t = 0"
  shows "requests (handleNewChat env st) =
           requests st @
             map (\<lambda>t. DELETE_thread (id_t t)) (filter (\<lambda>t. message_count t = 0) (threads st)) @
             [POST_threads None] \<and>
         threads (handleNewChat env st) =
           (case createResponse env of
              Responded True (Inr th) \<Rightarrow> [th]
            | _ \<Rightarrow> []) @
           filter (\<lambda>t. message_count t \<noteq> 0) (threads st)"
  using filter_by_id [OF assms]
  by (simp only: handleNewChat_requests handleNewChat_threads)

theorem handleNewChat_cleanup_witness:
  "requests (handleNewChat (newchat_env (Responded True (Inr thread_new))) state0) =
     [DELETE_thread ''a'', DELETE_thread ''c'', POST_threads None] \<and>
   threads (handleNewChat (newchat_env (Responded True (Inr thread_new))) state0) =
     [thread_new, thread_b]"
proof -
  have h: "\<forall>t\<in>set (threads state0). \<forall>e\<in>set (threads state0).
             message_count e = 0 \<and> id_t t = id_t e \<longrightarrow> message_count t = 0"
    by (simp add: state0_def thread_a_def thread_b_def thread_c_def)
  have t: "threads state0 = [thread_a, thread_b, thread_c]" "requests state0 = []"
    by (simp_all add: state0_def)
  have m: "message_count thread_a = 0" "message_count thread_b \<noteq> 0" "message_count thread_c = 0"
    "id_t thread_a = ''a''" "id_t thread_c = ''c''"
    by (simp_all add: thread_a_def thread_b_def thread_c_def)
  have c: "createResponse (newchat_env (Responded True (Inr thread_new))) = Responded True (Inr thread_new)"
    by (simp add: newchat_env_def)
  show ?thesis
    using handleNewChat_cleanup [OF h, of "newchat_env (Responded True (Inr thread_new))"]
    by (simp add: t m c)
qed

text \<open>
  C2 does not hold for every thread list: the local removal goes by id. With a list
  of two threads that share the id \<open>a\<close>, one with no messages and one with two, a
  single \<open>DELETE\<close> is issued and both are removed from the local list: the thread
  with messages is not kept.
\<close>

theorem handleNewChat_shared_id_counterexample:
  "threads state_dup = [thread_a, thread_a\<lparr>message_count := 2\<rparr>] \<and>
   message_count thread_a = 0 \<and>
   message_count (thread_a\<lparr>message_count := 2\<rparr>) = 2 \<and>
   thread_a\<lparr>message_count := 2\<rparr> \<notin>
     set (threads (handleNewChat (newchat_env (Responded True (Inr thread_new))) state_dup)) \<and>
   requests (handleNewChat (newchat_env (Responded True (Inr thread_new))) state_dup) =
     [DELETE_thread ''a'', POST_threads None] \<and>
   threads (handleNewChat (newchat_env (Responded True (Inr thread_new))) state_dup) =
     [thread_new]"
  by (simp add: handleNewChat_threads handleNewChat_requests state_dup_def state0_def
        newchat_env_def thread_a_def thread_new_def)

section \<open>Order of the thread list\<close>

text \<open>
  C7. For every thread list sorted by descending \<open>updated_at\<close> and every newly
  created thread whose \<open>updated_at\<close> is at least that of each thread of the list, the
  list after \<open>createThread\<close> is the new thread followed by the old list, and it is
  still sorted by descending \<open>updated_at\<close>.
\<close>

theorem createThread_keeps_order:
  assumes "sorted_wrt (\<lambda>a b. updated_at a \<ge> updated_at b) (threads st)"
      and "\<forall>t\<in>set (threads st). updated_at thread \<ge> updated_at t"
  shows "threads (snd (createThread title_arg (Responded True (Inr thread)) rnd st)) =
           thread # threads st \<and>
         sorted_wrt (\<lambda>a b. updated_at a \<ge> updated_at b)
           (threads (snd (createThread title_arg (Responded True (Inr thread)) rnd st)))"
  using assms by (simp add: createThread_threads)

theorem createThread_keeps_order_witness:
  "sorted_wrt (\<lambda>a b. updated_at a \<ge> updated_at b) (threads state0) \<and>
   threads (snd (createThread None (Responded True (Inr thread_new)) (\<lambda>k. 1 / 2) state0)) =
     [thread_new, thread_a, thread_b, thread_c] \<and>
   sorted_wrt (\<lambda>a b. updated_at a \<ge> updated_at b)
     (threads (snd (createThread None (Responded True (Inr thread_new)) (\<lambda>k. 1 / 2) state0)))"
proof -
  have h1: "sorted_wrt (\<lambda>a b. updated_at a \<ge> updated_at b) (threads state0)"
    by (simp add: state0_def thread_a_def thread_b_def thread_c_def)
  have h2: "\<forall>t\<in>set (threads state0). updated_at thread_new \<ge> updated_at t"
    by (simp add: state0_def thread_a_def thread_b_def thread_c_def thread_new_def)
  have t: "threads state0 = [thread_a, thread_b, thread_c]" by (simp add: state0_def)
  note T = createThread_keeps_order [OF h1 h2, of None "\<lambda>k. 1 / 2"]
  from T have a: "threads (snd (createThread None (Responded True (Inr thread_new)) (\<lambda>k. 1 / 2) state0)) =
     [thread_new, thread_a, thread_b, thread_c]"
    by (simp add: t)
  from T have b: "sorted_wrt (\<lambda>a b. updated_at a \<ge> updated_at b)
     (threads (snd (createThread None (Responded True (Inr thread_new)) (\<lambda>k. 1 / 2) state0)))"
    by blast
  show ?thesis using h1 a b by blast
qed

section \<open>Fallback thread ids\<close>

text \<open>
  C10. Whatever values in \<open>[0, 1)\<close> the random source produces, \<open>generateUUID\<close>
  returns a string of 36 characters with hyphens at positions 8, 13, 18 and 23 and a
  lowercase hexadecimal digit at every other position; the character after the second
  hyphen is \<open>4\<close> and the character after the third hyphen is one of \<open>8\<close>, \<open>9\<close>,
  \<open>a\<close>, \<open>b\<close>. Whenever the creation of a thread over HTTP does not succeed (the
  fetch rejects, the response is not ok, or its JSON cannot be read), \<open>createThread\<close>
  returns this string, and \<open>handleNewChat\<close> makes it the thread id.
\<close>

theorem generateUUID_format:
  assumes "\<forall>k. 0 \<le> rnd k \<and> rnd k < 1"
  shows "length (generateUUID rnd) = 36 \<and>
     (\<forall>i<36. if i = 8 \<or> i = 13 \<or> i = 18 \<or> i = 23
              then generateUUID rnd ! i = CHR ''-''
              else generateUUID rnd ! i \<in> set ''0123456789abcdef'') \<and>
     generateUUID rnd ! 14 = CHR ''4'' \<and>
     generateUUID rnd ! 19 \<in> set ''89ab'' \<and>
     (\<forall>title_arg resp st. (\<forall>th. resp \<noteq> Responded True (Inr th)) \<longrightarrow>
        fst (createThread title_arg resp rnd st) = generateUUID rnd) \<and>
     (\<forall>env st. random env = rnd \<and> (\<forall>th. createResponse env \<noteq> Responded True (Inr th)) \<longrightarrow>
        threadId (handleNewChat env st) = generateUUID rnd)"
proof -
  let ?T = "''xxxxxxxx-xxxx-4xxx-yxxx-xxxxxxxxxxxx''"
  note F = replace_xy_format [OF assms, of ?T 0, folded generateUUID_def]
  have len: "length (generateUUID rnd) = 36" using F by simp
  have at: "\<And>i. i < 36 \<Longrightarrow>
        (?T ! i = CHR ''x'' \<longrightarrow> generateUUID rnd ! i \<in> set ''0123456789abcdef'') \<and>
        (?T ! i = CHR ''y'' \<longrightarrow> generateUUID rnd ! i \<in> set ''89ab'') \<and>
        (?T ! i \<noteq> CHR ''x'' \<and> ?T ! i \<noteq> CHR ''y'' \<longrightarrow> generateUUID rnd ! i = ?T ! i)"
    using F by simp
  have sub: "set ''89ab'' \<subseteq> set ''0123456789abcdef''" by simp
  have pos: "\<forall>i<36. if i = 8 \<or> i = 13 \<or> i = 18 \<or> i = 23
              then generateUUID rnd ! i = CHR ''-''
              else generateUUID rnd ! i \<in> set ''0123456789abcdef''"
  proof (intro allI impI)
    fix i :: nat assume i: "i < 36"
    note a = at [OF i] and t = template_nth [OF i]
    show "if i = 8 \<or> i = 13 \<or> i = 18 \<or> i = 23
              then generateUUID rnd ! i = CHR ''-''
              else generateUUID rnd ! i \<in> set ''0123456789abcdef''"
    proof (cases "i = 8 \<or> i = 13 \<or> i = 18 \<or> i = 23")
      case True
      then have "?T ! i = CHR ''-''" using t by simp
      then show ?thesis using a True by simp
    next
      case False
      show ?thesis
      proof (cases "i = 14")
        case True
        then have "generateUUID rnd ! i = CHR ''4''" using a t by simp
        then show ?thesis using False by simp
      next
        case n14: False
        show ?thesis
        proof (cases "i = 19")
          case True
          then have "generateUUID rnd ! i \<in> set ''89ab''" using a t by simp
          then show ?thesis using False sub by auto
        next
          case n19: False
          have "?T ! i = CHR ''x''" using t False n14 n19 by simp
          then show ?thesis using a False by simp
        qed
      qed
    qed
  qed
  have v: "generateUUID rnd ! 14 = CHR ''4''"
    using at [of 14] template_nth [of 14] by simp
  have w: "generateUUID rnd ! 19 \<in> set ''89ab''"
    using at [of 19] template_nth [of 19] by simp
  have c: "\<forall>title_arg resp st. (\<forall>th. resp \<noteq> Responded True (Inr th)) \<longrightarrow>
        fst (createThread title_arg resp rnd st) = generateUUID rnd"
    by (simp add: createThread_fallback)
  have n: "\<forall>env st. random env = rnd \<and> (\<forall>th. createResponse env \<noteq> Responded True (Inr th)) \<longrightarrow>
        threadId (handleNewChat env st) = generateUUID rnd"
    by (auto simp: handleNewChat_threadId createThread_fallback)
  show ?thesis using len pos v w c n by blast
qed


theorem generateUUID_format_witness:
  "generateUUID (\<lambda>k. 1 / 2) = ''88888888-8888-4888-8888-888888888888'' \<and>
   length (generateUUID (\<lambda>k. 1 / 2)) = 36 \<and>
   generateUUID (\<lambda>k. 1 / 2) ! 14 = CHR ''4'' \<and>
   generateUUID (\<lambda>k. 1 / 2) ! 19 \<in> set ''89ab'' \<and>
   threadId (handleNewChat (newchat_env (FetchRejected ''offline'')) state0) =
     generateUUID (\<lambda>k. 1 / 2)"
proof -
  have h: "\<forall>k::nat. 0 \<le> (1 / 2 :: rat) \<and> (1 / 2 :: rat) < 1" by simp
  note T = generateUUID_format [OF h]
  have e: "generateUUID (\<lambda>k. 1 / 2) = ''88888888-8888-4888-8888-888888888888''"
    by (simp add: generateUUID_def replacer_def ToInt32_def toString16_def
          toString16_nat.simps hexDigit_def Let_def)
  have r: "random (newchat_env (FetchRejected ''offline'')) = (\<lambda>k. 1 / 2)"
    "\<forall>th. createResponse (newchat_env (FetchRejected ''offline'')) \<noteq> Responded True (Inr th)"
    by (simp_all add: newchat_env_def)
  from T r have n: "threadId (handleNewChat (newchat_env (FetchRejected ''offline'')) state0) =
     generateUUID (\<lambda>k. 1 / 2)"
    by blast
  from T have l: "length (generateUUID (\<lambda>k. 1 / 2)) = 36"
    and v: "generateUUID (\<lambda>k. 1 / 2) ! 14 = CHR ''4''"
    and w: "generateUUID (\<lambda>k. 1 / 2) ! 19 \<in> set ''89ab''"
    by blast+
  show ?thesis using e l v w n by blast
qed

section \<open>Corpus-version invalidation\<close>

text \<open>
  C1. The Query Cache never returns an answer whose recorded corpus version differs
  from the Vector Index's current version: a lookup that finds such an entry is a miss,
  and a lookup that returns an answer returns one recorded at the current version.
  Every non-empty sequence of ingestions, deletions and flushes strictly increases the
  version, so after an answer for \<open>Q\<close> was cached at the version of that time, a
  repeat of \<open>Q\<close> (or of a query with the same normal form) following any such
  sequence does not return it.
\<close>

theorem stale_answer_never_returned:
  "(c (normalize_query q) = Some e \<and> corpus_version e \<noteq> version idx \<longrightarrow>
      cache_lookup idx c q now = None) \<and>
   (cache_lookup idx c q now = Some r \<longrightarrow>
      (\<exists>e. c (normalize_query q) = Some e \<and> corpus_version e = version idx \<and> answer e = r)) \<and>
   (ms \<noteq> [] \<longrightarrow> version idx < version (apply_mutations ms idx)) \<and>
   (ms \<noteq> [] \<and> normalize_query q' = normalize_query q \<longrightarrow>
      cache_lookup (apply_mutations ms idx)
        (cache_put q (version idx) a ids lifetime t0 c) q' now = None)"
proof (intro conjI impI)
  assume "c (normalize_query q) = Some e \<and> corpus_version e \<noteq> version idx"
  then show "cache_lookup idx c q now = None"
    by (simp add: cache_lookup_def cache_get_def)
next
  assume "cache_lookup idx c q now = Some r"
  then show "\<exists>e. c (normalize_query q) = Some e \<and> corpus_version e = version idx \<and> answer e = r"
    by (auto simp: cache_lookup_def cache_get_def split: option.splits if_splits)
next
  assume "ms \<noteq> []"
  then show "version idx < version (apply_mutations ms idx)"
    by (simp add: version_apply_mutations)
next
  assume a: "ms \<noteq> [] \<and> normalize_query q' = normalize_query q"
  then have "version (apply_mutations ms idx) \<noteq> version idx"
    by (simp add: version_apply_mutations)
  then show "cache_lookup (apply_mutations ms idx)
        (cache_put q (version idx) a ids lifetime t0 c) q' now = None"
    using a by (auto simp: cache_lookup_def cache_get_def cache_put_def)
qed

theorem stale_answer_never_returned_witness:
  "cache_lookup index0 (cache_put ''q'' (version index0) ''A'' [] 60 0 Map.empty) ''q'' 1 = Some ''A'' \<and>
   cache_lookup (apply_mutations [Delete ''doc''] index0)
     (cache_put ''q'' (version index0) ''A'' [] 60 0 Map.empty) ''q'' 1 = None \<and>
   version (apply_mutations [Delete ''doc''] index0) = 8"
proof -
  have h: "[Delete ''doc''] \<noteq> [] \<and> normalize_query ''q'' = normalize_query ''q''" by simp
  have hit: "cache_lookup index0 (cache_put ''q'' (version index0) ''A'' [] 60 0 Map.empty) ''q'' 1
      = Some ''A''"
    by (simp add: cache_lookup_def cache_get_def cache_put_def)
  have v: "version (apply_mutations [Delete ''doc''] index0) = 8"
    by (simp add: index0_def delete_source_def)
  from h stale_answer_never_returned [of Map.empty "''q''" _ index0 1 _ "[Delete ''doc'']" "''q''" "''A''" "[]" 60 0]
  have "cache_lookup (apply_mutations [Delete ''doc''] index0)
     (cache_put ''q'' (version index0) ''A'' [] 60 0 Map.empty) ''q'' 1 = None"
    by blast
  then show ?thesis using hit v by blast
qed

end
